theory Spec2Isabelle
  imports Complex_Main
begin

text \<open>
  A model of the matching and update core of the Kobo-to-Calibre synchronisation:
  the normalization and search of \<^verbatim>\<open>BookMatcher\<close>, the classification and the bulk
  update of \<^verbatim>\<open>CalibreUpdater\<close>, and the stages of \<^verbatim>\<open>SyncEngine\<close>. Functions keep
  the names of the Python methods; a leading underscore is dropped
  (\<^verbatim>\<open>_get_rating_collections\<close> is \<open>get_rating_collections\<close>). Logging is left out.
\<close>

section \<open>Strings\<close>



definition is_upper :: "char \<Rightarrow> bool" where
  "is_upper c = (65 \<le> (of_char c :: nat) \<and> (of_char c :: nat) \<le> 90)"

definition is_lower :: "char \<Rightarrow> bool" where
  "is_lower c = (97 \<le> (of_char c :: nat) \<and> (of_char c :: nat) \<le> 122)"

definition is_digit :: "char \<Rightarrow> bool" where
  "is_digit c = (48 \<le> (of_char c :: nat) \<and> (of_char c :: nat) \<le> 57)"

definition is_letter :: "char \<Rightarrow> bool" where
  "is_letter c = (is_upper c \<or> is_lower c)"

text \<open>\<^verbatim>\<open>str.isspace\<close> on ASCII: tab, line feed, vertical tab, form feed, carriage
  return, the four separators 28 to 31, and the space.\<close>

definition is_space :: "char \<Rightarrow> bool" where
  "is_space c = ((9 \<le> (of_char c :: nat) \<and> (of_char c :: nat) \<le> 13)
     \<or> (28 \<le> (of_char c :: nat) \<and> (of_char c :: nat) \<le> 32))"

text \<open>The class \<^verbatim>\<open>\w\<close>: alphanumeric characters and the underscore.\<close>

definition is_word :: "char \<Rightarrow> bool" where
  "is_word c = (is_letter c \<or> is_digit c \<or> c = CHR ''_'')"

definition lower_char :: "char \<Rightarrow> char" where
  "lower_char c = (if is_upper c then char_of ((of_char c :: nat) + 32) else c)"

definition upper_char :: "char \<Rightarrow> char" where
  "upper_char c = (if is_lower c then char_of ((of_char c :: nat) - 32) else c)"

definition lower :: "string \<Rightarrow> string" where
  "lower s = map lower_char s"

definition strip :: "string \<Rightarrow> string" where
  "strip s = rev (dropWhile is_space (rev (dropWhile is_space s)))"

definition startswith :: "string \<Rightarrow> string \<Rightarrow> bool" where
  "startswith s p = (take (length p) s = p)"

text \<open>\<^verbatim>\<open>re.sub(r'[^\w\s]', ' ', s)\<close>: every character outside both classes becomes a
  space.\<close>

definition sub_nonword_nonspace :: "string \<Rightarrow> string" where
  "sub_nonword_nonspace s = map (\<lambda>c. if is_word c \<or> is_space c then c else CHR '' '') s"

text \<open>\<^verbatim>\<open>re.sub(r'\s+', ' ', s)\<close>: scanning from the left, each maximal run of whitespace
  is replaced by one space.\<close>

function sub_spaces :: "string \<Rightarrow> string" where
  "sub_spaces [] = []"
| "sub_spaces (c # cs) =
     (if is_space c then CHR '' '' # sub_spaces (dropWhile is_space cs)
      else c # sub_spaces cs)"
  by pat_completeness auto
termination
  by (relation "measure length") (auto simp: less_Suc_eq_le length_dropWhile_le)

section \<open>Match engine: normalization (book\_matcher.py)\<close>

text \<open>The loop over the articles, with its \<^verbatim>\<open>break\<close> at the first one that is a
  prefix.\<close>

fun strip_article :: "string list \<Rightarrow> string \<Rightarrow> string" where
  "strip_article [] normalized = normalized"
| "strip_article (article # articles) normalized =
     (if startswith normalized article then drop (length article) normalized
      else strip_article articles normalized)"

definition normalize_title :: "string \<Rightarrow> string" where
  "normalize_title title =
     (if title = [] then []
      else strip (strip_article [''the '', ''a '', ''an '']
             (sub_spaces (sub_nonword_nonspace (lower title)))))"


text \<open>\<^verbatim>\<open>str.split(sep)\<close> for a one-character separator: \<open>n\<close> separators give \<open>n + 1\<close>
  parts.\<close>

fun split_on :: "char \<Rightarrow> string \<Rightarrow> string list" where
  "split_on sep [] = [[]]"
| "split_on sep (c # cs) =
     (if c = sep then [] # split_on sep cs
      else (case split_on sep cs of
              [] \<Rightarrow> [[c]]
            | part # parts \<Rightarrow> (c # part) # parts))"

definition normalize_author :: "string \<Rightarrow> string" where
  "normalize_author author =
     (if author = [] then []
      else
        (let normalized = sub_spaces (strip (lower author)) in
         if CHR '','' \<in> set normalized then
           (let parts = map strip (split_on CHR '','' normalized) in
            if length parts = 2 then parts ! 1 @ '' '' @ parts ! 0 else normalized)
         else normalized))"

section \<open>Data model\<close>

text \<open>\<^verbatim>\<open>KoboBook\<close> (kobo\_reader.py), \<^verbatim>\<open>CalibreLibrary\<close> (library\_manager.py),
  \<^verbatim>\<open>BookMatch\<close> and \<^verbatim>\<open>BookConflict\<close> (book\_matcher.py). Paths are kept as strings.\<close>

record KoboBook =
  content_id :: string
  title :: string
  author :: string
  read_status :: int
  percent_read :: int
  date_last_read :: "string option"
  collections :: "string list"

record CalibreLibrary =
  name :: string
  path :: string
  metadata_db_path :: string
  is_primary :: bool

record BookMatch =
  kobo_book :: KoboBook
  calibre_book_id :: int
  calibre_title :: string
  calibre_authors :: string
  library :: CalibreLibrary
  match_confidence :: real
  match_type :: string

record BookConflict =
  kobo_book :: KoboBook
  matches :: "BookMatch list"
  resolution :: "string option"
  chosen_library :: "string option"

text \<open>\<^verbatim>\<open>LibraryManager\<close>: the discovered libraries and the primary one, if any.\<close>

record LibraryManager =
  libraries :: "CalibreLibrary list"
  primary_library :: "CalibreLibrary option"

definition get_primary_library :: "LibraryManager \<Rightarrow> CalibreLibrary option" where
  "get_primary_library lm = primary_library lm"

definition get_secondary_libraries :: "LibraryManager \<Rightarrow> CalibreLibrary list" where
  "get_secondary_libraries lm = filter (\<lambda>lib. \<not> is_primary lib) (libraries lm)"

section \<open>Match engine: search (book\_matcher.py)\<close>

text \<open>
  A row of the query of \<^verbatim>\<open>find_book_in_library\<close>: the book's id, its title and the
  \<^verbatim>\<open>GROUP_CONCAT\<close> of its authors, which is \<^verbatim>\<open>NULL\<close> for a book with no author. The
  contents of the stores are a snapshot \<open>db\<close>, keyed by \<^verbatim>\<open>metadata_db_path\<close>: the rows
  the query returns, in the order it returns them, or \<open>None\<close> when \<^verbatim>\<open>sqlite3\<close> raises.
  The title of a row is a string: the column \<^verbatim>\<open>books.title\<close> of a Calibre store is
  \<^verbatim>\<open>NOT NULL\<close>.
\<close>

record book_row =
  row_id :: int
  row_title :: string
  row_authors :: "string option"

type_synonym catalog = "string \<Rightarrow> book_row list option"

definition or_empty :: "string option \<Rightarrow> string" where
  "or_empty v = (case v of None \<Rightarrow> [] | Some s \<Rightarrow> s)"

text \<open>The loop over the rows: the first row whose normalized title and author both
  equal the book's is returned as an exact match.\<close>

fun scan_books ::
  "KoboBook \<Rightarrow> CalibreLibrary \<Rightarrow> string \<Rightarrow> string \<Rightarrow> book_row list \<Rightarrow> BookMatch option" where
  "scan_books kb lib kobo_title_norm kobo_author_norm [] = None"
| "scan_books kb lib kobo_title_norm kobo_author_norm (book # books) =
     (if kobo_title_norm = normalize_title (row_title book)
         \<and> kobo_author_norm = normalize_author (or_empty (row_authors book))
      then Some \<lparr> BookMatch.kobo_book = kb, calibre_book_id = row_id book,
                  calibre_title = row_title book,
                  calibre_authors = or_empty (row_authors book),
                  library = lib, match_confidence = 1, match_type = ''exact'' \<rparr>
      else scan_books kb lib kobo_title_norm kobo_author_norm books)"

definition find_book_in_library ::
  "catalog \<Rightarrow> KoboBook \<Rightarrow> CalibreLibrary \<Rightarrow> BookMatch option" where
  "find_book_in_library db kb lib =
     (case db (metadata_db_path lib) of
        None \<Rightarrow> None
      | Some calibre_books \<Rightarrow>
          scan_books kb lib (normalize_title (title kb)) (normalize_author (author kb))
            calibre_books)"

text \<open>
  \<^verbatim>\<open>find_book_across_libraries\<close>. The second component records, in order, the
  libraries whose store has been queried: each call of \<^verbatim>\<open>find_book_in_library\<close>
  appends its library.
\<close>

fun search_secondary ::
  "catalog \<Rightarrow> KoboBook \<Rightarrow> CalibreLibrary list \<Rightarrow> BookMatch list \<Rightarrow> CalibreLibrary list
    \<Rightarrow> BookMatch list \<times> CalibreLibrary list" where
  "search_secondary db kb [] ms queried = (ms, queried)"
| "search_secondary db kb (lib # libs) ms queried =
     (case find_book_in_library db kb lib of
        Some m \<Rightarrow> search_secondary db kb libs (ms @ [m]) (queried @ [lib])
      | None \<Rightarrow> search_secondary db kb libs ms (queried @ [lib]))"

definition find_book_across_libraries ::
  "catalog \<Rightarrow> LibraryManager \<Rightarrow> KoboBook \<Rightarrow> CalibreLibrary list
    \<Rightarrow> BookMatch list \<times> CalibreLibrary list" where
  "find_book_across_libraries db lm kb queried =
     (case get_primary_library lm of
        Some primary \<Rightarrow>
          (case find_book_in_library db kb primary of
             Some m \<Rightarrow> ([m], queried @ [primary])
           | None \<Rightarrow>
               search_secondary db kb (get_secondary_libraries lm) [] (queried @ [primary]))
      | None \<Rightarrow> search_secondary db kb (get_secondary_libraries lm) [] queried)"

text \<open>\<^verbatim>\<open>match_all_books\<close>: the three result lists are accumulated over the books. The
  copies of the last two lists that the matcher keeps for its report are left out.\<close>

fun match_loop ::
  "catalog \<Rightarrow> LibraryManager \<Rightarrow> KoboBook list
    \<Rightarrow> BookMatch list \<times> KoboBook list \<times> BookConflict list \<Rightarrow> CalibreLibrary list
    \<Rightarrow> (BookMatch list \<times> KoboBook list \<times> BookConflict list) \<times> CalibreLibrary list" where
  "match_loop db lm [] acc queried = (acc, queried)"
| "match_loop db lm (kb # kbs) (successful_matches, unmatched_books, conflicts) queried =
     (case find_book_across_libraries db lm kb queried of
        (ms, queried') \<Rightarrow>
          (if ms \<noteq> [] then
             (if length ms = 1 then
                match_loop db lm kbs
                  (successful_matches @ [ms ! 0], unmatched_books, conflicts) queried'
              else
                match_loop db lm kbs
                  (successful_matches, unmatched_books,
                   conflicts @ [\<lparr> BookConflict.kobo_book = kb, matches = ms,
                                   resolution = None, chosen_library = None \<rparr>]) queried')
           else
             match_loop db lm kbs
               (successful_matches, unmatched_books @ [kb], conflicts) queried'))"

definition match_all_books ::
  "catalog \<Rightarrow> LibraryManager \<Rightarrow> KoboBook list \<Rightarrow> CalibreLibrary list
    \<Rightarrow> (BookMatch list \<times> KoboBook list \<times> BookConflict list) \<times> CalibreLibrary list" where
  "match_all_books db lm kobo_books queried = match_loop db lm kobo_books ([], [], []) queried"


section \<open>Update applier: classification of the collections (calibre\_updater.py)\<close>

text \<open>\<^verbatim>\<open>s.replace("| ", "")\<close>: every occurrence of the marker, scanning from the left,
  is removed.\<close>

fun replace_marker :: "string \<Rightarrow> string" where
  "replace_marker [] = []"
| "replace_marker [c] = [c]"
| "replace_marker (c # d # cs) =
     (if c = CHR ''|'' \<and> d = CHR '' '' then replace_marker cs
      else c # replace_marker (d # cs))"

text \<open>\<^verbatim>\<open>str.title\<close>: a cased character is put in upper case when the character before
  it is not cased, and in lower case when it is.\<close>

fun title_from :: "bool \<Rightarrow> string \<Rightarrow> string" where
  "title_from previous_is_cased [] = []"
| "title_from previous_is_cased (c # cs) =
     (if is_lower c then
        (if previous_is_cased then c else upper_char c) # title_from True cs
      else if is_upper c then
        (if previous_is_cased then lower_char c else c) # title_from True cs
      else c # title_from False cs)"

definition str_title :: "string \<Rightarrow> string" where
  "str_title s = title_from False s"

definition rating_patterns :: "string list" where
  "rating_patterns =
     [''| evergreen'', ''| absolute favorite'', ''| favorite'', ''| good'',
      ''evergreen'', ''absolute favorite'', ''favorites'', ''great'', ''favorite'']"

fun get_rating_collections :: "string list \<Rightarrow> string list" where
  "get_rating_collections [] = []"
| "get_rating_collections (col # cols) =
     (let col_lower = strip (lower col) in
      if col_lower \<in> set (map lower rating_patterns) then
        (let clean_name = str_title (replace_marker col_lower);
             clean_name = (if clean_name = ''Favorite'' then ''Favorites''
                           else if clean_name = ''Good'' then ''Great''
                           else clean_name)
         in clean_name # get_rating_collections cols)
      else get_rating_collections cols)"

fun genre_loop :: "string list \<Rightarrow> string list \<Rightarrow> string list" where
  "genre_loop rating_patterns_lower [] = []"
| "genre_loop rating_patterns_lower (col # cols) =
     (let col_clean = strip (replace_marker col) in
      if lower col_clean \<notin> set rating_patterns_lower
         \<and> lower col_clean \<notin> set [''evergreen'', ''absolute favorite'', ''favorites'',
                                      ''great'', ''favorite'', ''good'']
      then col_clean # genre_loop rating_patterns_lower cols
      else genre_loop rating_patterns_lower cols)"

definition get_genre_collections :: "string list \<Rightarrow> string list" where
  "get_genre_collections cols =
     (let rating_collections = get_rating_collections cols;
          rating_patterns_lower = map lower rating_collections
      in genre_loop rating_patterns_lower cols)"

section \<open>Update applier: the external calls (calibre\_updater.py)\<close>

text \<open>
  The updater acts on the world through \<^verbatim>\<open>subprocess.run\<close> on \<^verbatim>\<open>calibredb\<close>,
  \<^verbatim>\<open>shutil.copy2\<close> and one \<^verbatim>\<open>sqlite3\<close> query. A call of \<^verbatim>\<open>subprocess.run\<close> completes
  with a return code, standard output and standard error, or raises \<^verbatim>\<open>TimeoutExpired\<close>,
  or raises something else.
\<close>

datatype proc_result = Completed int string string | TimeoutExpired | Raised

text \<open>
  Every external call is recorded, with the arguments that identify its target and
  with its outcome:
  \<^item> \<open>Probe p r\<close>: \<^verbatim>\<open>calibredb list --library-path p --limit 1\<close>;
  \<^item> \<open>Backup n f ok\<close>: the copy of the file \<open>f\<close> into the backup directory under the
    name of library \<open>n\<close> (the time stamp in the file name is left out), \<open>ok\<close> when
    the copy did not raise;
  \<^item> \<open>ReadColumns f r\<close>: \<^verbatim>\<open>SELECT label, name FROM custom_columns\<close> on the file \<open>f\<close>,
    \<open>None\<close> when \<^verbatim>\<open>sqlite3\<close> raises;
  \<^item> \<open>AddColumn p label display r\<close>: \<^verbatim>\<open>calibredb add_custom_column --library-path p\<close>;
  \<^item> \<open>SetMetadata p book_id field r\<close>: \<^verbatim>\<open>calibredb set_metadata --library-path p\<close>.
\<close>

datatype event =
    Probe string proc_result
  | Backup string string bool
  | ReadColumns string "(string \<times> string) list option"
  | AddColumn string string string proc_result
  | SetMetadata string int string proc_result

text \<open>The world answers each call; its answer may depend on everything that has
  happened before, the trace of events so far.\<close>

record env =
  calibredb_list :: "event list \<Rightarrow> string \<Rightarrow> proc_result"
  copy_metadata_db :: "event list \<Rightarrow> string \<Rightarrow> string \<Rightarrow> bool"
  select_custom_columns :: "event list \<Rightarrow> string \<Rightarrow> (string \<times> string) list option"
  calibredb_add_custom_column :: "event list \<Rightarrow> string \<Rightarrow> string \<Rightarrow> string \<Rightarrow> proc_result"
  calibredb_set_metadata :: "event list \<Rightarrow> string \<Rightarrow> int \<Rightarrow> string \<Rightarrow> proc_result"

text \<open>\<^verbatim>\<open>sub in s\<close> on strings.\<close>

fun str_contains :: "string \<Rightarrow> string \<Rightarrow> bool" where
  "str_contains [] sub = (sub = [])"
| "str_contains (c # cs) sub = (startswith (c # cs) sub \<or> str_contains cs sub)"

text \<open>\<^verbatim>\<open>sep.join(values)\<close>.\<close>

fun join :: "string \<Rightarrow> string list \<Rightarrow> string" where
  "join sep [] = []"
| "join sep [v] = v"
| "join sep (v # w # vs) = v @ sep @ join sep (w # vs)"

definition test_calibredb_connection ::
  "env \<Rightarrow> event list \<Rightarrow> CalibreLibrary \<Rightarrow> bool \<times> event list" where
  "test_calibredb_connection e tr lib =
     (let result = calibredb_list e tr (path lib) in
      (case result of
         Completed returncode out err \<Rightarrow> returncode = 0
       | TimeoutExpired \<Rightarrow> False
       | Raised \<Rightarrow> False,
       tr @ [Probe (path lib) result]))"

definition backup_library ::
  "env \<Rightarrow> event list \<Rightarrow> CalibreLibrary \<Rightarrow> bool \<times> event list" where
  "backup_library e tr lib =
     (let copied = copy_metadata_db e tr (metadata_db_path lib) (name lib) in
      (copied, tr @ [Backup (name lib) (metadata_db_path lib) copied]))"

record column_check =
  my_ratings :: bool
  my_genres :: bool

definition check_custom_columns ::
  "env \<Rightarrow> event list \<Rightarrow> CalibreLibrary \<Rightarrow> column_check \<times> event list" where
  "check_custom_columns e tr lib =
     (let existing_columns = select_custom_columns e tr (metadata_db_path lib) in
      (case existing_columns of
         None \<Rightarrow> \<lparr> my_ratings = False, my_genres = False \<rparr>
       | Some rows \<Rightarrow>
           \<lparr> my_ratings = (''myratings'' \<in> set (map fst rows)),
             my_genres = (''my_genres'' \<in> set (map fst rows)) \<rparr>,
       tr @ [ReadColumns (metadata_db_path lib) existing_columns]))"

definition create_custom_column ::
  "env \<Rightarrow> event list \<Rightarrow> CalibreLibrary \<Rightarrow> string \<Rightarrow> string \<Rightarrow> bool \<times> event list" where
  "create_custom_column e tr lib column_name display_name =
     (let result = calibredb_add_custom_column e tr (path lib) column_name display_name in
      (case result of
         Completed returncode out err \<Rightarrow>
           (if returncode = 0 then True
            else if str_contains (lower err) ''already exists'' then True
            else False)
       | TimeoutExpired \<Rightarrow> False
       | Raised \<Rightarrow> False,
       tr @ [AddColumn (path lib) column_name display_name result]))"

definition ensure_custom_columns ::
  "env \<Rightarrow> event list \<Rightarrow> CalibreLibrary \<Rightarrow> bool \<times> event list" where
  "ensure_custom_columns e tr lib =
     (case check_custom_columns e tr lib of
        (columns, tr1) \<Rightarrow>
          (case (if \<not> my_ratings columns
                 then create_custom_column e tr1 lib ''myratings'' ''My Ratings''
                 else (True, tr1)) of
             (ratings_ok, tr2) \<Rightarrow>
               (case (if \<not> my_genres columns
                      then create_custom_column e tr2 lib ''my_genres'' ''My Genres''
                      else (True, tr2)) of
                  (genres_ok, tr3) \<Rightarrow> (ratings_ok \<and> genres_ok, tr3))))"

definition update_custom_column ::
  "env \<Rightarrow> event list \<Rightarrow> CalibreLibrary \<Rightarrow> int \<Rightarrow> string \<Rightarrow> string list
    \<Rightarrow> bool \<times> event list" where
  "update_custom_column e tr lib book_id column vals =
     (if vals = [] then (True, tr)
      else
        (let field = ''#'' @ column @ '':'' @ join '','' vals;
             result = calibredb_set_metadata e tr (path lib) book_id field
         in (case result of
               Completed returncode out err \<Rightarrow> returncode = 0
             | TimeoutExpired \<Rightarrow> False
             | Raised \<Rightarrow> False,
             tr @ [SetMetadata (path lib) book_id field result])))"

definition update_book_metadata ::
  "env \<Rightarrow> event list \<Rightarrow> BookMatch \<Rightarrow> bool \<times> event list" where
  "update_book_metadata e tr m =
     (let rating_collections = get_rating_collections (collections (BookMatch.kobo_book m));
          genre_collections = get_genre_collections (collections (BookMatch.kobo_book m))
      in
        (case (if rating_collections \<noteq> []
               then update_custom_column e tr (library m) (calibre_book_id m)
                      ''myratings'' rating_collections
               else (True, tr)) of
           (ratings_ok, tr1) \<Rightarrow>
             (if \<not> ratings_ok then (False, tr1)
              else
                (case (if genre_collections \<noteq> []
                       then update_custom_column e tr1 (library m) (calibre_book_id m)
                              ''my_genres'' genre_collections
                       else (True, tr1)) of
                   (genres_ok, tr2) \<Rightarrow>
                     (if \<not> genres_ok then (False, tr2) else (True, tr2))))))"

section \<open>Update applier: the bulk update (calibre\_updater.py)\<close>

text \<open>The statistics dictionary. \<open>dry_run\<close> is \<open>None\<close> when the dictionary has no such
  key.\<close>

record stats =
  total_stat :: nat
  successful :: nat
  failed :: nat
  libraries_updated :: "string set"
  dry_run :: "bool option"

datatype error = Exception string | IndexError | AttributeError

text \<open>The dictionary \<^verbatim>\<open>by_library\<close>, in insertion order: a match is appended to the
  entry of its library's name, and a name not yet present gets a new entry at the
  end.\<close>

definition add_to_library ::
  "(string \<times> BookMatch list) list \<Rightarrow> BookMatch \<Rightarrow> (string \<times> BookMatch list) list" where
  "add_to_library by_library m =
     (let lib_name = name (library m) in
      if lib_name \<notin> set (map fst by_library)
      then by_library @ [(lib_name, [m])]
      else map (\<lambda>(k, ms). if k = lib_name then (k, ms @ [m]) else (k, ms)) by_library)"

definition group_by_library :: "BookMatch list \<Rightarrow> (string \<times> BookMatch list) list" where
  "group_by_library ms = foldl add_to_library [] ms"

fun update_books ::
  "env \<Rightarrow> event list \<Rightarrow> stats \<Rightarrow> BookMatch list \<Rightarrow> stats \<times> event list" where
  "update_books e tr st [] = (st, tr)"
| "update_books e tr st (m # ms) =
     (case update_book_metadata e tr m of
        (ok, tr') \<Rightarrow>
          update_books e tr'
            (if ok then st\<lparr> successful := successful st + 1 \<rparr>
             else st\<lparr> failed := failed st + 1 \<rparr>) ms)"

fun process_libraries ::
  "env \<Rightarrow> event list \<Rightarrow> stats \<Rightarrow> (string \<times> BookMatch list) list
    \<Rightarrow> (error + stats) \<times> event list" where
  "process_libraries e tr st [] = (Inr st, tr)"
| "process_libraries e tr st ((library_name, []) # rest) = (Inl IndexError, tr)"
| "process_libraries e tr st ((library_name, m0 # ms) # rest) =
     (let lib = library m0; library_matches = m0 # ms in
      case test_calibredb_connection e tr lib of
        (conn_ok, tr1) \<Rightarrow>
          if \<not> conn_ok then
            process_libraries e tr1
              (st\<lparr> failed := failed st + length library_matches \<rparr>) rest
          else
            (case backup_library e tr1 lib of
               (backup_ok, tr2) \<Rightarrow>
                 if \<not> backup_ok then
                   process_libraries e tr2
                     (st\<lparr> failed := failed st + length library_matches \<rparr>) rest
                 else
                   (case ensure_custom_columns e tr2 lib of
                      (columns_ok, tr3) \<Rightarrow>
                        if \<not> columns_ok then
                          process_libraries e tr3
                            (st\<lparr> failed := failed st + length library_matches \<rparr>) rest
                        else
                          (case update_books e tr3 st library_matches of
                             (st', tr4) \<Rightarrow>
                               process_libraries e tr4
                                 (st'\<lparr> libraries_updated :=
                                         insert library_name (libraries_updated st') \<rparr>)
                                 rest))))"

definition bulk_update ::
  "env \<Rightarrow> event list \<Rightarrow> BookMatch list \<Rightarrow> (error + stats) \<times> event list" where
  "bulk_update e tr ms =
     process_libraries e tr
       \<lparr> total_stat = length ms, successful = 0, failed = 0, libraries_updated = {},
         dry_run = None \<rparr>
       (group_by_library ms)"


section \<open>Sync orchestrator (sync\_engine.py)\<close>

text \<open>
  \<^verbatim>\<open>KoboReader\<close> with its dictionary of rating collections, and the fields of
  \<^verbatim>\<open>SyncEngine\<close> that the pipeline stages read and write. \<open>kobo_reader\<close> is \<open>None\<close>
  until \<^verbatim>\<open>load_kobo_data\<close> has created the reader.
\<close>

record KoboReader =
  db_path :: string
  rating_collections :: "(string \<times> string) list"

record SyncEngine =
  kobo_reader :: "KoboReader option"
  library_manager :: LibraryManager
  kobo_books :: "KoboBook list"
  libraries :: "CalibreLibrary list"
  matches :: "BookMatch list"
  unmatched_books :: "KoboBook list"
  conflicts :: "BookConflict list"

text \<open>\<^verbatim>\<open>match_books\<close>: the two checks, then the match engine; the lists it returns are
  stored in the engine.\<close>

definition match_books ::
  "catalog \<Rightarrow> CalibreLibrary list \<Rightarrow> SyncEngine
    \<Rightarrow> error + (SyncEngine \<times> CalibreLibrary list)" where
  "match_books db queried eng =
     (if kobo_books eng = [] then
        Inl (Exception ''No Kobo books loaded. Call load_kobo_data() first.'')
      else if libraries eng = [] then
        Inl (Exception ''No libraries discovered. Call discover_libraries() first.'')
      else
        (case match_all_books db (library_manager eng) (kobo_books eng) queried of
           ((ms, unmatched, cs), queried') \<Rightarrow>
             Inr (eng\<lparr> matches := ms, unmatched_books := unmatched, conflicts := cs \<rparr>,
                  queried')))"

text \<open>
  \<^verbatim>\<open>_simulate_updates\<close>. The preview that is logged reads
  \<^verbatim>\<open>self.kobo_reader.rating_collections\<close> once for every collection of the first five
  matches of each library, which raises \<^verbatim>\<open>AttributeError\<close> when there is no reader.
\<close>

definition simulate_updates :: "SyncEngine \<Rightarrow> error + stats" where
  "simulate_updates eng =
     (let st = \<lparr> total_stat = length (matches eng), successful = length (matches eng),
                 failed = 0,
                 libraries_updated =
                   foldl (\<lambda>names m. insert (name (library m)) names) {} (matches eng),
                 dry_run = Some True \<rparr>;
          by_library = group_by_library (matches eng)
      in
        if kobo_reader eng = None
           \<and> list_ex (\<lambda>(lib_name, lib_matches).
                 list_ex (\<lambda>m. collections (BookMatch.kobo_book m) \<noteq> []) (take 5 lib_matches))
               by_library
        then Inl AttributeError
        else Inr st)"

definition update_calibre_metadata ::
  "bool \<Rightarrow> SyncEngine \<Rightarrow> env \<Rightarrow> event list \<Rightarrow> (error + stats) \<times> event list" where
  "update_calibre_metadata dry eng e tr =
     (if dry then (simulate_updates eng, tr)
      else if matches eng = [] then
        (Inl (Exception ''No book matches found. Call match_books() first.''), tr)
      else bulk_update e tr (matches eng))"

definition apply_conflict_resolutions :: "SyncEngine \<Rightarrow> BookMatch list \<Rightarrow> SyncEngine" where
  "apply_conflict_resolutions eng resolved_matches =
     (if resolved_matches \<noteq> [] then eng\<lparr> matches := matches eng @ resolved_matches \<rparr>
      else eng)"

section \<open>Notions of the specification\<close>

text \<open>
  The matches found in the primary store and among the secondary stores for one
  book, as the specification speaks of them.
\<close>

definition primary_matches :: "catalog \<Rightarrow> LibraryManager \<Rightarrow> KoboBook \<Rightarrow> BookMatch list" where
  "primary_matches db lm kb =
     (case primary_library lm of
        None \<Rightarrow> []
      | Some primary \<Rightarrow>
          (case find_book_in_library db kb primary of None \<Rightarrow> [] | Some m \<Rightarrow> [m]))"

definition secondary_matches :: "catalog \<Rightarrow> LibraryManager \<Rightarrow> KoboBook \<Rightarrow> BookMatch list" where
  "secondary_matches db lm kb =
     List.map_filter (find_book_in_library db kb) (get_secondary_libraries lm)"

text \<open>A row agrees with a book when both normalized fields are equal.\<close>

definition row_agrees :: "KoboBook \<Rightarrow> book_row \<Rightarrow> bool" where
  "row_agrees kb r =
     (normalize_title (row_title r) = normalize_title (title kb)
      \<and> normalize_author (or_empty (row_authors r)) = normalize_author (author kb))"







text \<open>
  What the trace tells about the columns of a library's store: a column is known to
  exist once a query of the store has listed it, or a request to add it has
  completed with return code 0 or with the diagnostic that it already exists. The
  external tool reports existing columns when it answers every request to add a
  column known to exist by a nonzero return code and that diagnostic.
\<close>

definition accepted :: "proc_result \<Rightarrow> bool" where
  "accepted r =
     (case r of
        Completed returncode out err \<Rightarrow>
          returncode = 0 \<or> str_contains (lower err) ''already exists''
      | TimeoutExpired \<Rightarrow> False
      | Raised \<Rightarrow> False)"

definition already_exists_reported :: "proc_result \<Rightarrow> bool" where
  "already_exists_reported r =
     (case r of
        Completed returncode out err \<Rightarrow>
          returncode \<noteq> 0 \<and> str_contains (lower err) ''already exists''
      | TimeoutExpired \<Rightarrow> False
      | Raised \<Rightarrow> False)"

definition column_known :: "event list \<Rightarrow> CalibreLibrary \<Rightarrow> string \<Rightarrow> bool" where
  "column_known tr lib label =
     list_ex (\<lambda>ev. case ev of
         AddColumn p l display r \<Rightarrow> p = path lib \<and> l = label \<and> accepted r
       | ReadColumns f (Some rows) \<Rightarrow> f = metadata_db_path lib \<and> label \<in> set (map fst rows)
       | _ \<Rightarrow> False) tr"

definition reports_existing_columns :: "env \<Rightarrow> CalibreLibrary \<Rightarrow> bool" where
  "reports_existing_columns e lib =
     (\<forall>tr label display. column_known tr lib label \<longrightarrow>
        already_exists_reported (calibredb_add_custom_column e tr (path lib) label display))"

text \<open>
  A trace respects the backups of the libraries \<open>libs\<close> when every request that
  changes a store (adding a column, setting a field) comes after a successful
  backup of the metadata file of a library at that path.
\<close>

fun backed_up_first :: "CalibreLibrary list \<Rightarrow> string list \<Rightarrow> event list \<Rightarrow> bool" where
  "backed_up_first libs backed [] = True"
| "backed_up_first libs backed (Backup n f ok # evs) =
     backed_up_first libs
       (if ok then map path (filter (\<lambda>l. metadata_db_path l = f) libs) @ backed else backed)
       evs"
| "backed_up_first libs backed (AddColumn p l d r # evs) =
     (p \<in> set backed \<and> backed_up_first libs backed evs)"
| "backed_up_first libs backed (SetMetadata p b f r # evs) =
     (p \<in> set backed \<and> backed_up_first libs backed evs)"
| "backed_up_first libs backed (ev # evs) = backed_up_first libs backed evs"


text \<open>The match record that \<^verbatim>\<open>find_book_in_library\<close> builds for a row, and the matches
  that the search across the libraries finds for one book.\<close>

definition exact_match :: "KoboBook \<Rightarrow> CalibreLibrary \<Rightarrow> book_row \<Rightarrow> BookMatch" where
  "exact_match kb lib r =
     \<lparr> BookMatch.kobo_book = kb, calibre_book_id = row_id r, calibre_title = row_title r,
       calibre_authors = or_empty (row_authors r), library = lib, match_confidence = 1,
       match_type = ''exact'' \<rparr>"

definition found_matches :: "catalog \<Rightarrow> LibraryManager \<Rightarrow> KoboBook \<Rightarrow> BookMatch list" where
  "found_matches db lm kb =
     (if primary_matches db lm kb \<noteq> [] then primary_matches db lm kb
      else secondary_matches db lm kb)"

text \<open>
  The paths backed up by the end of a trace; a trace is \<open>safe\<close> when it respects the
  backups from the start, and a path is \<open>covered\<close> by a trace that holds a successful
  backup of a library at that path.
\<close>

fun backed_after :: "CalibreLibrary list \<Rightarrow> string list \<Rightarrow> event list \<Rightarrow> string list" where
  "backed_after libs backed [] = backed"
| "backed_after libs backed (Backup n f ok # evs) =
     backed_after libs
       (if ok then map path (filter (\<lambda>l. metadata_db_path l = f) libs) @ backed else backed)
       evs"
| "backed_after libs backed (ev # evs) = backed_after libs backed evs"

definition safe :: "CalibreLibrary list \<Rightarrow> event list \<Rightarrow> bool" where
  "safe libs tr = backed_up_first libs [] tr"

definition covered :: "CalibreLibrary list \<Rightarrow> event list \<Rightarrow> string \<Rightarrow> bool" where
  "covered libs tr p = (p \<in> set (backed_after libs [] tr))"

text \<open>
  Groups of matches in which every match is of the library of the first one, a
  library of \<open>libs\<close>; and groups whose matches are all taken from \<open>S\<close> and filed under
  the name of their library.
\<close>

definition uniform_groups :: "CalibreLibrary list \<Rightarrow> (string \<times> BookMatch list) list \<Rightarrow> bool" where
  "uniform_groups libs groups =
     list_all (\<lambda>g. case snd g of
                     [] \<Rightarrow> True
                   | m0 # ms \<Rightarrow> library m0 \<in> set libs
                       \<and> list_all (\<lambda>m. library m = library m0) ms) groups"

definition keyed_groups :: "BookMatch set \<Rightarrow> (string \<times> BookMatch list) list \<Rightarrow> bool" where
  "keyed_groups S groups =
     list_all (\<lambda>g. list_all (\<lambda>m. m \<in> S \<and> name (library m) = fst g) (snd g)) groups"

text \<open>The requests of a trace that set a field.\<close>

definition field_writes :: "event list \<Rightarrow> event list" where
  "field_writes tr =
     filter (\<lambda>ev. case ev of SetMetadata p b f r \<Rightarrow> True | _ \<Rightarrow> False) tr"

text \<open>The number of matches held by the entries of \<^verbatim>\<open>by_library\<close>.\<close>

definition group_total :: "(string \<times> BookMatch list) list \<Rightarrow> nat" where
  "group_total by_library = sum_list (map (\<lambda>g. length (snd g)) by_library)"

section \<open>Example data\<close>

text \<open>One book of the source store, three libraries of which \<open>MCR\<close> is the primary
  one, and stores that hold a record of the book (up to case and punctuation) or a
  record with the same title by another author.\<close>

definition kb_unison :: KoboBook where
  "kb_unison = \<lparr> content_id = ''book-1'', title = ''You and I in Unison'',
     author = ''0P3NY0UR3Y3SANDL00KN0RTH'', read_status = 2, percent_read = 100,
     date_last_read = None, collections = [''Evergreen'', ''sweet fluff'', ''killjoys''] \<rparr>"

definition lib_mcr :: CalibreLibrary where
  "lib_mcr = \<lparr> name = ''MCR'', path = ''/books/MCR'',
     metadata_db_path = ''/books/MCR/metadata.db'', is_primary = True \<rparr>"

definition lib_fiction :: CalibreLibrary where
  "lib_fiction = \<lparr> name = ''Fiction'', path = ''/books/Fiction'',
     metadata_db_path = ''/books/Fiction/metadata.db'', is_primary = False \<rparr>"

definition lib_archive :: CalibreLibrary where
  "lib_archive = \<lparr> name = ''Archive'', path = ''/books/Archive'',
     metadata_db_path = ''/books/Archive/metadata.db'', is_primary = False \<rparr>"

definition lm_three :: LibraryManager where
  "lm_three = \<lparr> LibraryManager.libraries = [lib_mcr, lib_fiction, lib_archive],
     primary_library = Some lib_mcr \<rparr>"

definition row_unison :: book_row where
  "row_unison = \<lparr> row_id = 7, row_title = ''You And I In Unison!'',
     row_authors = Some ''0p3ny0ur3y3sandl00kn0rth'' \<rparr>"

definition row_title_only :: book_row where
  "row_title_only = \<lparr> row_id = 8, row_title = ''You and I in Unison'',
     row_authors = Some ''Someone Else'' \<rparr>"

definition db_everywhere :: catalog where
  "db_everywhere f =
     (if f = ''/books/MCR/metadata.db'' \<or> f = ''/books/Fiction/metadata.db''
         \<or> f = ''/books/Archive/metadata.db''
      then Some [row_title_only, row_unison] else None)"

definition db_secondary_only :: catalog where
  "db_secondary_only f =
     (if f = ''/books/MCR/metadata.db'' then Some [row_title_only]
      else if f = ''/books/Fiction/metadata.db'' \<or> f = ''/books/Archive/metadata.db''
      then Some [row_unison] else None)"

definition db_archive_only :: catalog where
  "db_archive_only f =
     (if f = ''/books/MCR/metadata.db'' \<or> f = ''/books/Fiction/metadata.db''
      then Some [row_title_only]
      else if f = ''/books/Archive/metadata.db'' then Some [row_title_only, row_unison]
      else None)"

text \<open>An engine as \<^verbatim>\<open>SyncEngine.__init__\<close> leaves it, and one that holds three matches
  in two libraries after the load and match stages.\<close>

definition fresh_engine :: SyncEngine where
  "fresh_engine = \<lparr> kobo_reader = None,
     library_manager = \<lparr> LibraryManager.libraries = [], primary_library = None \<rparr>,
     kobo_books = [], libraries = [], matches = [], unmatched_books = [], conflicts = [] \<rparr>"


text \<open>A world in which every external call succeeds and both columns exist, and one
  whose column table cannot be read and whose tool creates a column once and then
  reports that it exists.\<close>

definition env_ok :: env where
  "env_ok = \<lparr> calibredb_list = (\<lambda>tr p. Completed 0 [] []),
     copy_metadata_db = (\<lambda>tr f n. True),
     select_custom_columns =
       (\<lambda>tr f. Some [(''myratings'', ''My Ratings''), (''my_genres'', ''My Genres'')]),
     calibredb_add_custom_column = (\<lambda>tr p l d. Completed 0 [] []),
     calibredb_set_metadata = (\<lambda>tr p b f. Completed 0 [] []) \<rparr>"

definition env_unreadable :: env where
  "env_unreadable = \<lparr> calibredb_list = (\<lambda>tr p. Completed 0 [] []),
     copy_metadata_db = (\<lambda>tr f n. True),
     select_custom_columns = (\<lambda>tr f. None),
     calibredb_add_custom_column =
       (\<lambda>tr p l d. if column_known tr lib_fiction l
                   then Completed 1 [] ''Column already exists''
                   else Completed 0 [] []),
     calibredb_set_metadata = (\<lambda>tr p b f. Completed 0 [] []) \<rparr>"

text \<open>Two libraries in directories of the same name, and a second book.\<close>

definition lib_docs :: CalibreLibrary where
  "lib_docs = \<lparr> name = ''Books'', path = ''/docs/Books'',
     metadata_db_path = ''/docs/Books/metadata.db'', is_primary = False \<rparr>"

definition lib_dl :: CalibreLibrary where
  "lib_dl = \<lparr> name = ''Books'', path = ''/dl/Books'',
     metadata_db_path = ''/dl/Books/metadata.db'', is_primary = False \<rparr>"

definition kb_tagged :: KoboBook where
  "kb_tagged = \<lparr> content_id = ''book-2'', title = ''Dune'', author = ''Frank Herbert'',
     read_status = 1, percent_read = 40, date_last_read = None,
     collections = [''Great''] \<rparr>"

definition row_dune :: book_row where
  "row_dune = \<lparr> row_id = 3, row_title = ''Dune'', row_authors = Some ''Herbert, Frank'' \<rparr>"

section \<open>Normalization of titles\<close>








section \<open>Classification of the collections\<close>

text \<open>
  Claim C4: every label is classified into exactly one of the rating labels and the
  genre labels. The label \<open>good\<close> is in neither: the rating vocabulary holds
  \<open>| good\<close> but not \<open>good\<close>, and the genre filter excludes \<open>good\<close> as a rating name.
\<close>

theorem classification_drops_good:
  "get_rating_collections [''good''] = [] \<and> get_genre_collections [''good''] = []"
  by code_simp

section \<open>Search in one library\<close>

lemma find_Some: "List.find P xs = Some x \<Longrightarrow> x \<in> set xs \<and> P x"
  by (induction xs) (auto split: if_splits)

lemma scan_books_find:
  "scan_books kb lib (normalize_title (title kb)) (normalize_author (author kb)) rows
     = map_option (exact_match kb lib) (List.find (row_agrees kb) rows)"
  by (induction rows) (auto simp: row_agrees_def exact_match_def)

lemma find_book_in_library_find:
  "find_book_in_library db kb lib =
     (case db (metadata_db_path lib) of
        None \<Rightarrow> None
      | Some rows \<Rightarrow> map_option (exact_match kb lib) (List.find (row_agrees kb) rows))"
  by (simp add: find_book_in_library_def scan_books_find split: option.splits)

text \<open>
  Claim C3: \<open>find_book_in_library\<close> returns a match exactly when the store can be read
  and holds a row whose normalized title and normalized author both equal the
  book's; a match it returns is of kind \<open>exact\<close>, for the given book and library, and
  refers to such a row; when every row differs in the normalized title or in the
  normalized author, no match is returned.
\<close>

theorem find_book_in_library_exact_only:
  "((\<exists>m. find_book_in_library db kb lib = Some m) \<longleftrightarrow>
      (\<exists>rows. db (metadata_db_path lib) = Some rows \<and> (\<exists>r \<in> set rows. row_agrees kb r)))
   \<and> (\<forall>m. find_book_in_library db kb lib = Some m \<longrightarrow>
         match_type m = ''exact'' \<and> BookMatch.kobo_book m = kb \<and> library m = lib
         \<and> (\<exists>rows r. db (metadata_db_path lib) = Some rows \<and> r \<in> set rows
               \<and> calibre_book_id m = row_id r \<and> calibre_title m = row_title r
               \<and> normalize_title (row_title r) = normalize_title (title kb)
               \<and> normalize_author (or_empty (row_authors r)) = normalize_author (author kb)))
   \<and> (\<forall>rows. db (metadata_db_path lib) = Some rows
         \<and> (\<forall>r \<in> set rows. normalize_title (row_title r) \<noteq> normalize_title (title kb)
               \<or> normalize_author (or_empty (row_authors r)) \<noteq> normalize_author (author kb))
         \<longrightarrow> find_book_in_library db kb lib = None)"
proof (intro conjI allI impI)
  show "(\<exists>m. find_book_in_library db kb lib = Some m) \<longleftrightarrow>
      (\<exists>rows. db (metadata_db_path lib) = Some rows \<and> (\<exists>r \<in> set rows. row_agrees kb r))"
  proof -
    have "(\<exists>m. map_option (exact_match kb lib) (List.find (row_agrees kb) rows) = Some m)
            \<longleftrightarrow> (\<exists>r \<in> set rows. row_agrees kb r)" for rows
      by (cases "List.find (row_agrees kb) rows")
        (auto simp: find_None_iff dest: find_Some)
    then show ?thesis
      by (cases "db (metadata_db_path lib)") (simp_all add: find_book_in_library_find)
  qed
next
  fix m assume m: "find_book_in_library db kb lib = Some m"
  then obtain rows r where rows: "db (metadata_db_path lib) = Some rows"
    and r: "List.find (row_agrees kb) rows = Some r" and mr: "m = exact_match kb lib r"
    by (auto simp: find_book_in_library_find split: option.splits)
  from r have "r \<in> set rows" "row_agrees kb r"
    by (auto dest: find_Some)
  with rows mr show "match_type m = ''exact''" "BookMatch.kobo_book m = kb" "library m = lib"
    "\<exists>rows r. db (metadata_db_path lib) = Some rows \<and> r \<in> set rows
               \<and> calibre_book_id m = row_id r \<and> calibre_title m = row_title r
               \<and> normalize_title (row_title r) = normalize_title (title kb)
               \<and> normalize_author (or_empty (row_authors r)) = normalize_author (author kb)"
    by (auto simp: exact_match_def row_agrees_def)
next
  fix rows
  assume "db (metadata_db_path lib) = Some rows
         \<and> (\<forall>r \<in> set rows. normalize_title (row_title r) \<noteq> normalize_title (title kb)
               \<or> normalize_author (or_empty (row_authors r)) \<noteq> normalize_author (author kb))"
  then show "find_book_in_library db kb lib = None"
    by (auto simp: find_book_in_library_find find_None_iff row_agrees_def)
qed

theorem find_book_in_library_exact_only_witness:
  "find_book_in_library db_secondary_only kb_unison lib_mcr = None
   \<and> (\<exists>m. find_book_in_library db_everywhere kb_unison lib_mcr = Some m
          \<and> match_type m = ''exact'' \<and> library m = lib_mcr)"
proof -
  have h: "db_secondary_only (metadata_db_path lib_mcr) = Some [row_title_only]
      \<and> (\<forall>r \<in> set [row_title_only].
            normalize_title (row_title r) \<noteq> normalize_title (title kb_unison)
            \<or> normalize_author (or_empty (row_authors r)) \<noteq> normalize_author (author kb_unison))"
    by code_simp
  have t: "normalize_title (row_title row_title_only) = normalize_title (title kb_unison)"
    by code_simp
  have g: "db_everywhere (metadata_db_path lib_mcr) = Some [row_title_only, row_unison]
      \<and> (\<exists>r \<in> set [row_title_only, row_unison]. row_agrees kb_unison r)"
    by code_simp
  note thm1 = find_book_in_library_exact_only [of db_secondary_only kb_unison lib_mcr]
  note thm2 = find_book_in_library_exact_only [of db_everywhere kb_unison lib_mcr]
  from thm1 h have n: "find_book_in_library db_secondary_only kb_unison lib_mcr = None"
    by blast
  from thm2 g obtain m where m: "find_book_in_library db_everywhere kb_unison lib_mcr = Some m"
    by blast
  with thm2 have "match_type m = ''exact'' \<and> library m = lib_mcr" by blast
  with n m show ?thesis by blast
qed

section \<open>Search across the libraries\<close>

lemma search_secondary_eq:
  "search_secondary db kb libs ms queried =
     (ms @ List.map_filter (find_book_in_library db kb) libs, queried @ libs)"
  by (induction libs arbitrary: ms queried) (auto simp: map_filter_simps split: option.splits)

text \<open>
  Claim C2: when the primary library yields a match, \<open>find_book_across_libraries\<close>
  returns that match alone and queries the primary library only; when the primary
  library yields none (or there is no primary library), every secondary library is
  queried, in order, and the matches of all of them are returned.
\<close>

theorem find_book_across_libraries_primary_first:
  "(\<forall>primary m. primary_library lm = Some primary
        \<and> find_book_in_library db kb primary = Some m
      \<longrightarrow> find_book_across_libraries db lm kb queried = ([m], queried @ [primary]))
   \<and> (primary_matches db lm kb = []
      \<longrightarrow> find_book_across_libraries db lm kb queried
          = (secondary_matches db lm kb,
             queried @ (case primary_library lm of None \<Rightarrow> [] | Some primary \<Rightarrow> [primary])
               @ get_secondary_libraries lm))"
  by (auto simp: find_book_across_libraries_def get_primary_library_def primary_matches_def
      secondary_matches_def search_secondary_eq split: option.splits)

theorem find_book_across_libraries_primary_first_witness:
  "find_book_across_libraries db_everywhere lm_three kb_unison []
     = ([exact_match kb_unison lib_mcr row_unison], [lib_mcr])
   \<and> find_book_across_libraries db_secondary_only lm_three kb_unison []
     = ([exact_match kb_unison lib_fiction row_unison,
         exact_match kb_unison lib_archive row_unison],
        [lib_mcr, lib_fiction, lib_archive])"
proof -
  have a: "primary_library lm_three = Some lib_mcr
      \<and> find_book_in_library db_everywhere kb_unison lib_mcr
          = Some (exact_match kb_unison lib_mcr row_unison)"
    by code_simp
  have b: "primary_matches db_secondary_only lm_three kb_unison = []" by code_simp
  have c: "secondary_matches db_secondary_only lm_three kb_unison
      = [exact_match kb_unison lib_fiction row_unison,
         exact_match kb_unison lib_archive row_unison]"
    by code_simp
  have d: "(case primary_library lm_three of None \<Rightarrow> [] | Some primary \<Rightarrow> [primary])
        @ get_secondary_libraries lm_three = [lib_mcr, lib_fiction, lib_archive]"
    by code_simp
  from find_book_across_libraries_primary_first [of lm_three db_everywhere kb_unison "[]"] a
  have "find_book_across_libraries db_everywhere lm_three kb_unison []
     = ([exact_match kb_unison lib_mcr row_unison], [lib_mcr])"
    by simp
  moreover
  from find_book_across_libraries_primary_first [of lm_three db_secondary_only kb_unison "[]"] b c d
  have "find_book_across_libraries db_secondary_only lm_three kb_unison []
     = ([exact_match kb_unison lib_fiction row_unison,
         exact_match kb_unison lib_archive row_unison],
        [lib_mcr, lib_fiction, lib_archive])"
    by simp
  ultimately show ?thesis by simp
qed

section \<open>Matching all books\<close>

lemma primary_matches_length: "length (primary_matches db lm kb) \<le> 1"
  by (simp add: primary_matches_def split: option.splits)

lemma fst_find_book_across_libraries:
  "fst (find_book_across_libraries db lm kb queried) = found_matches db lm kb"
  by (auto simp: find_book_across_libraries_def get_primary_library_def primary_matches_def
      secondary_matches_def search_secondary_eq found_matches_def split: option.splits)

lemma match_loop_lists:
  "fst (match_loop db lm kbs (s, u, c) queried) =
     (s @ concat (map (\<lambda>kb. if length (found_matches db lm kb) = 1 then found_matches db lm kb else []) kbs),
      u @ filter (\<lambda>kb. found_matches db lm kb = []) kbs,
      c @ map (\<lambda>kb. \<lparr> BookConflict.kobo_book = kb, BookConflict.matches = found_matches db lm kb,
                        resolution = None, chosen_library = None \<rparr>)
            (filter (\<lambda>kb. 2 \<le> length (found_matches db lm kb)) kbs))"
proof (induction kbs arbitrary: s u c queried)
  case Nil
  then show ?case by simp
next
  case (Cons kb kbs)
  obtain ms q' where f: "find_book_across_libraries db lm kb queried = (ms, q')"
    by (cases "find_book_across_libraries db lm kb queried")
  then have ms: "found_matches db lm kb = ms"
    using fst_find_book_across_libraries [of db lm kb queried] by simp
  consider "ms = []" | "length ms = 1" | "2 \<le> length ms"
    by (cases ms) (auto simp: Suc_le_eq)
  then show ?case
  proof cases
    case 1
    with f ms Cons.IH show ?thesis by simp
  next
    case 2
    then obtain m where "ms = [m]" by (cases ms) auto
    with f ms Cons.IH show ?thesis by simp
  next
    case 3
    then have "ms \<noteq> []" "length ms \<noteq> 1" by auto
    with 3 f ms Cons.IH show ?thesis by simp
  qed
qed

lemma found_matches_conflict:
  "2 \<le> length (found_matches db lm kb)
     \<longleftrightarrow> primary_matches db lm kb = [] \<and> 2 \<le> length (secondary_matches db lm kb)"
  using primary_matches_length [of db lm kb] by (auto simp: found_matches_def)

text \<open>
  Claim C1: for a book of the input, \<open>match_all_books\<close> reports a conflict exactly when
  no match was found in the primary store and at least two were found among the
  secondary stores; with no match in the primary store and exactly one among the
  secondary stores, that match is in the matched list and there is no conflict for
  the book.
\<close>

theorem match_all_books_conflict_iff:
  assumes run: "match_all_books db lm books queried
                  = ((matched, unmatched, confl), queried')"
    and kb: "kb \<in> set books"
  shows "((\<exists>c \<in> set confl. BookConflict.kobo_book c = kb)
            \<longleftrightarrow> primary_matches db lm kb = [] \<and> 2 \<le> length (secondary_matches db lm kb))
         \<and> (\<forall>m. primary_matches db lm kb = [] \<and> secondary_matches db lm kb = [m]
               \<longrightarrow> m \<in> set matched
                   \<and> (\<forall>c \<in> set confl. BookConflict.kobo_book c \<noteq> kb))"
proof -
  from run have lists: "(matched, unmatched, confl) =
      (concat (map (\<lambda>kb. if length (found_matches db lm kb) = 1 then found_matches db lm kb else []) books),
       filter (\<lambda>kb. found_matches db lm kb = []) books,
       map (\<lambda>kb. \<lparr> BookConflict.kobo_book = kb, BookConflict.matches = found_matches db lm kb,
                     resolution = None, chosen_library = None \<rparr>)
         (filter (\<lambda>kb. 2 \<le> length (found_matches db lm kb)) books))"
    using match_loop_lists [of db lm books "[]" "[]" "[]" queried]
    by (simp add: match_all_books_def)
  then have c: "(\<exists>c \<in> set confl. BookConflict.kobo_book c = kb)
      \<longleftrightarrow> kb \<in> set books \<and> 2 \<le> length (found_matches db lm kb)"
    by auto
  have first: "(\<exists>c \<in> set confl. BookConflict.kobo_book c = kb)
            \<longleftrightarrow> primary_matches db lm kb = [] \<and> 2 \<le> length (secondary_matches db lm kb)"
    using c kb by (simp add: found_matches_conflict)
  have second: "m \<in> set matched \<and> (\<forall>c \<in> set confl. BookConflict.kobo_book c \<noteq> kb)"
    if "primary_matches db lm kb = [] \<and> secondary_matches db lm kb = [m]" for m
  proof -
    from that have fm: "found_matches db lm kb = [m]" by (simp add: found_matches_def)
    with lists kb have "m \<in> set matched" by force
    moreover from first that have "\<forall>c \<in> set confl. BookConflict.kobo_book c \<noteq> kb"
      by auto
    ultimately show ?thesis by simp
  qed
  from first second show ?thesis by blast
qed

theorem match_all_books_conflict_iff_witness:
  "(\<exists>c \<in> set (snd (snd (fst (match_all_books db_secondary_only lm_three [kb_unison] [])))).
       BookConflict.kobo_book c = kb_unison)
   \<and> primary_matches db_secondary_only lm_three kb_unison = []
   \<and> length (secondary_matches db_secondary_only lm_three kb_unison) = 2
   \<and> length (fst (fst (match_all_books db_archive_only lm_three [kb_unison] []))) = 1
   \<and> snd (snd (fst (match_all_books db_archive_only lm_three [kb_unison] []))) = []"
proof -
  obtain s u c q where run: "match_all_books db_secondary_only lm_three [kb_unison] []
      = ((s, u, c), q)"
    by (metis prod.exhaust)
  have p: "primary_matches db_secondary_only lm_three kb_unison = []" by code_simp
  have l: "length (secondary_matches db_secondary_only lm_three kb_unison) = 2" by code_simp
  have "\<exists>c \<in> set c. BookConflict.kobo_book c = kb_unison"
    using match_all_books_conflict_iff [OF run, of kb_unison] p l by simp
  moreover have "length (fst (fst (match_all_books db_archive_only lm_three [kb_unison] []))) = 1"
    by code_simp
  moreover have "snd (snd (fst (match_all_books db_archive_only lm_three [kb_unison] []))) = []"
    by code_simp
  ultimately show ?thesis using run p l by simp
qed


section \<open>The bulk update counts every match once\<close>

lemma update_books_counts:
  "update_books e tr st ms = (st', tr') \<Longrightarrow>
     successful st' + failed st' = successful st + failed st + length ms
     \<and> total_stat st' = total_stat st"
proof (induction ms arbitrary: tr st)
  case Nil
  then show ?case by simp
next
  case (Cons m ms)
  obtain ok tr1 where u: "update_book_metadata e tr m = (ok, tr1)"
    by (cases "update_book_metadata e tr m")
  with Cons.prems Cons.IH [of tr1 "if ok then st\<lparr> successful := successful st + 1 \<rparr>
             else st\<lparr> failed := failed st + 1 \<rparr>"]
  show ?case by (cases ok) auto
qed

lemma process_libraries_counts:
  "list_all (\<lambda>g. snd g \<noteq> []) groups \<Longrightarrow>
     \<exists>st'. fst (process_libraries e tr st groups) = Inr st'
       \<and> successful st' + failed st' = successful st + failed st + group_total groups
       \<and> total_stat st' = total_stat st"
proof (induction groups arbitrary: tr st)
  case Nil
  then show ?case by (simp add: group_total_def)
next
  case (Cons g groups)
  obtain library_name m0 ms where g: "g = (library_name, m0 # ms)"
    using Cons.prems by (cases g; cases "snd g") auto
  from Cons.prems have rest: "list_all (\<lambda>g. snd g \<noteq> []) groups" by simp
  note IH = Cons.IH [OF rest]
  have gt: "group_total (g # groups) = Suc (length ms) + group_total groups"
    by (simp add: group_total_def g)
  obtain c tr1 where c: "test_calibredb_connection e tr (library m0) = (c, tr1)"
    by (cases "test_calibredb_connection e tr (library m0)")
  obtain b tr2 where b: "backup_library e tr1 (library m0) = (b, tr2)"
    by (cases "backup_library e tr1 (library m0)")
  obtain en tr3 where en: "ensure_custom_columns e tr2 (library m0) = (en, tr3)"
    by (cases "ensure_custom_columns e tr2 (library m0)")
  obtain st4 tr4 where u: "update_books e tr3 st (m0 # ms) = (st4, tr4)"
    by (cases "update_books e tr3 st (m0 # ms)")
  show ?case
  proof (cases "c \<and> b \<and> en")
    case True
    from update_books_counts [OF u]
    have k: "successful st4 + failed st4 = successful st + failed st + Suc (length ms)"
      "total_stat st4 = total_stat st" by simp_all
    from IH [of tr4 "st4\<lparr> libraries_updated := insert library_name (libraries_updated st4) \<rparr>"]
    show ?thesis using True c b en u k gt by (simp add: g ac_simps)
  next
    case False
    then consider "\<not> c" | "c" "\<not> b" | "c" "b" "\<not> en" by blast
    then show ?thesis
    proof cases
      case 1
      from IH [of tr1 "st\<lparr> failed := failed st + length (m0 # ms) \<rparr>"]
      show ?thesis using 1 c gt by (simp add: g ac_simps)
    next
      case 2
      from IH [of tr2 "st\<lparr> failed := failed st + length (m0 # ms) \<rparr>"]
      show ?thesis using 2 c b gt by (simp add: g ac_simps)
    next
      case 3
      from IH [of tr3 "st\<lparr> failed := failed st + length (m0 # ms) \<rparr>"]
      show ?thesis using 3 c b en gt by (simp add: g ac_simps)
    qed
  qed
qed

lemma map_append_group_total:
  "distinct (map fst bl) \<Longrightarrow>
     group_total (map (\<lambda>(k, ms). if k = n then (k, ms @ [m]) else (k, ms)) bl)
       = group_total bl + (if n \<in> set (map fst bl) then 1 else 0)"
  by (induction bl) (force simp: group_total_def)+

lemma add_to_library_inv:
  assumes "distinct (map fst bl)" and "list_all (\<lambda>g. snd g \<noteq> []) bl"
  shows "distinct (map fst (add_to_library bl m))
     \<and> list_all (\<lambda>g. snd g \<noteq> []) (add_to_library bl m)
     \<and> group_total (add_to_library bl m) = Suc (group_total bl)"
proof (cases "name (library m) \<in> set (map fst bl)")
  case False
  with assms show ?thesis by (simp add: add_to_library_def group_total_def)
next
  case True
  let ?f = "\<lambda>(k, ms). if k = name (library m) then (k, ms @ [m]) else (k, ms)"
  have keys: "map fst (map ?f bl) = map fst bl"
    by (induction bl) auto
  have ne: "list_all (\<lambda>g. snd g \<noteq> []) (map ?f bl)"
    using assms(2) by (induction bl) (auto split: if_splits)
  from keys assms(1) have dk: "distinct (map fst (map ?f bl))"
    by (simp only:)
  from True have "add_to_library bl m = map ?f bl"
    by (simp add: add_to_library_def)
  with dk ne True map_append_group_total [OF assms(1), of "name (library m)" m]
  show ?thesis by (simp del: map_map)
qed

lemma group_by_library_inv:
  "distinct (map fst (group_by_library ms))
     \<and> list_all (\<lambda>g. snd g \<noteq> []) (group_by_library ms)
     \<and> group_total (group_by_library ms) = length ms"
proof (induction ms rule: rev_induct)
  case Nil
  then show ?case by (simp add: group_by_library_def group_total_def)
next
  case (snoc m ms)
  have "group_by_library (ms @ [m]) = add_to_library (group_by_library ms) m"
    by (simp add: group_by_library_def)
  with snoc add_to_library_inv [of "group_by_library ms" m] show ?case by simp
qed

text \<open>
  Claim C10: for every list of matches (and whatever the external calls answer), the
  bulk update returns statistics, and in them \<open>successful + failed = total\<close>, where
  \<open>total\<close> is the length of the list: every match is counted once, also when its whole
  library is failed by the probe, the backup or the provisioning.
\<close>

theorem bulk_update_counts_every_match:
  "\<exists>st. fst (bulk_update e tr ms) = Inr st
     \<and> successful st + failed st = total_stat st \<and> total_stat st = length ms"
proof -
  from group_by_library_inv [of ms]
  have ne: "list_all (\<lambda>g. snd g \<noteq> []) (group_by_library ms)"
    and gt: "group_total (group_by_library ms) = length ms" by simp_all
  from process_libraries_counts [OF ne, of e tr
      "\<lparr> total_stat = length ms, successful = 0, failed = 0, libraries_updated = {},
         dry_run = None \<rparr>"] gt
  show ?thesis by (auto simp: bulk_update_def)
qed

section \<open>Dry run\<close>




section \<open>Preconditions of the stages\<close>

text \<open>
  Claim C9, as stated: the update stage, real or dry-run, fails when there are no
  matches. In dry-run mode the stage returns before that check: on a fresh engine it
  returns statistics that are all zero.
\<close>

theorem dry_run_without_matches_counterexample:
  "matches fresh_engine = []
   \<and> update_calibre_metadata True fresh_engine env_ok []
       = (Inr \<lparr> total_stat = 0, successful = 0, failed = 0, libraries_updated = {},
                dry_run = Some True \<rparr>, [])"
  by (simp add: fresh_engine_def update_calibre_metadata_def simulate_updates_def
      group_by_library_def)

text \<open>
  Claim C9, amended: matching fails with an error that names \<^verbatim>\<open>load_kobo_data\<close> when no
  books are loaded, and with one that names \<^verbatim>\<open>discover_libraries\<close> when books are
  loaded and no library is discovered; the real update stage fails with an error
  that names \<^verbatim>\<open>match_books\<close> when there are no matches, and makes no external call; the
  dry-run update stage has no such check and returns all-zero statistics when there
  are no matches.
\<close>

theorem stage_preconditions:
  "(kobo_books eng = [] \<longrightarrow>
      match_books db queried eng
        = Inl (Exception ''No Kobo books loaded. Call load_kobo_data() first.''))
   \<and> (kobo_books eng \<noteq> [] \<and> libraries eng = [] \<longrightarrow>
      match_books db queried eng
        = Inl (Exception ''No libraries discovered. Call discover_libraries() first.''))
   \<and> (matches eng = [] \<longrightarrow>
      update_calibre_metadata False eng e tr
        = (Inl (Exception ''No book matches found. Call match_books() first.''), tr))
   \<and> (matches eng = [] \<longrightarrow>
      update_calibre_metadata True eng e tr
        = (Inr \<lparr> total_stat = 0, successful = 0, failed = 0, libraries_updated = {},
                 dry_run = Some True \<rparr>, tr))"
  by (simp add: match_books_def update_calibre_metadata_def simulate_updates_def
      group_by_library_def)

theorem stage_preconditions_witness:
  "match_books db_everywhere [] fresh_engine
     = Inl (Exception ''No Kobo books loaded. Call load_kobo_data() first.'')
   \<and> match_books db_everywhere [] (fresh_engine\<lparr> kobo_books := [kb_unison] \<rparr>)
     = Inl (Exception ''No libraries discovered. Call discover_libraries() first.'')
   \<and> update_calibre_metadata False fresh_engine env_ok []
     = (Inl (Exception ''No book matches found. Call match_books() first.''), [])
   \<and> update_calibre_metadata True (fresh_engine\<lparr> kobo_books := [kb_unison] \<rparr>) env_ok []
     = (Inr \<lparr> total_stat = 0, successful = 0, failed = 0, libraries_updated = {},
              dry_run = Some True \<rparr>, [])"
  using stage_preconditions [of fresh_engine db_everywhere "[]" env_ok "[]"]
    stage_preconditions [of "fresh_engine\<lparr> kobo_books := [kb_unison] \<rparr>" db_everywhere "[]"
      env_ok "[]"]
  by (simp add: fresh_engine_def)

section \<open>Provisioning of the columns\<close>

lemma column_known_append:
  "column_known (tr @ tr') lib l = (column_known tr lib l \<or> column_known tr' lib l)"
  by (simp add: column_known_def)

lemma create_custom_column_known:
  "create_custom_column e tr lib c d = (ok, tr1) \<Longrightarrow>
     (column_known tr lib l \<longrightarrow> column_known tr1 lib l) \<and> (ok \<longrightarrow> column_known tr1 lib c)"
  by (auto simp: create_custom_column_def column_known_def accepted_def Let_def
      split: proc_result.splits if_splits)

lemma check_custom_columns_known:
  "check_custom_columns e tr lib = (cols, tr1) \<Longrightarrow>
     (column_known tr lib l \<longrightarrow> column_known tr1 lib l)
     \<and> (my_ratings cols \<longrightarrow> column_known tr1 lib ''myratings'')
     \<and> (my_genres cols \<longrightarrow> column_known tr1 lib ''my_genres'')"
  by (auto simp: check_custom_columns_def column_known_def Let_def split: option.splits)

lemma ensure_custom_columns_known:
  assumes "ensure_custom_columns e tr lib = (True, tr')"
  shows "column_known tr' lib ''myratings'' \<and> column_known tr' lib ''my_genres''"
proof -
  obtain cols tr1 where ch: "check_custom_columns e tr lib = (cols, tr1)"
    by (cases "check_custom_columns e tr lib")
  obtain r tr2 where cr: "(if \<not> my_ratings cols
                 then create_custom_column e tr1 lib ''myratings'' ''My Ratings''
                 else (True, tr1)) = (r, tr2)"
    by (metis prod.exhaust)
  obtain g tr3 where cg: "(if \<not> my_genres cols
                      then create_custom_column e tr2 lib ''my_genres'' ''My Genres''
                      else (True, tr2)) = (g, tr3)"
    by (metis prod.exhaust)
  from assms ch cr cg have ok: "r" "g" and tr': "tr' = tr3"
    by (simp_all add: ensure_custom_columns_def)
  note k1 = check_custom_columns_known [OF ch]
  have r2: "column_known tr2 lib ''myratings''"
    using cr ok(1) k1 create_custom_column_known [of e tr1 lib "''myratings''" "''My Ratings''" r tr2]
    by (auto split: if_splits)
  have g2: "my_genres cols \<longrightarrow> column_known tr2 lib ''my_genres''"
    using cr k1 [of "''my_genres''"]
      create_custom_column_known [of e tr1 lib "''myratings''" "''My Ratings''" r tr2 "''my_genres''"]
    by (auto split: if_splits)
  have "column_known tr3 lib ''myratings''"
    using cg r2 create_custom_column_known [of e tr2 lib "''my_genres''" "''My Genres''" g tr3 "''myratings''"]
    by (auto split: if_splits)
  moreover have "column_known tr3 lib ''my_genres''"
    using cg ok(2) g2 create_custom_column_known [of e tr2 lib "''my_genres''" "''My Genres''" g tr3]
    by (auto split: if_splits)
  ultimately show ?thesis by (simp add: tr')
qed

lemma create_known_column_succeeds:
  assumes "reports_existing_columns e lib" and "column_known tr lib c"
  shows "fst (create_custom_column e tr lib c d) = True"
proof -
  from assms have "already_exists_reported (calibredb_add_custom_column e tr (path lib) c d)"
    by (simp add: reports_existing_columns_def)
  then show ?thesis
    by (auto simp: create_custom_column_def already_exists_reported_def Let_def
        split: proc_result.splits)
qed

lemma ensure_known_columns_succeeds:
  assumes rep: "reports_existing_columns e lib"
    and kr: "column_known tr lib ''myratings''" and kg: "column_known tr lib ''my_genres''"
  shows "fst (ensure_custom_columns e tr lib) = True"
proof -
  obtain cols tr1 where ch: "check_custom_columns e tr lib = (cols, tr1)"
    by (cases "check_custom_columns e tr lib")
  obtain r tr2 where cr: "(if \<not> my_ratings cols
                 then create_custom_column e tr1 lib ''myratings'' ''My Ratings''
                 else (True, tr1)) = (r, tr2)"
    by (metis prod.exhaust)
  obtain g tr3 where cg: "(if \<not> my_genres cols
                      then create_custom_column e tr2 lib ''my_genres'' ''My Genres''
                      else (True, tr2)) = (g, tr3)"
    by (metis prod.exhaust)
  from check_custom_columns_known [OF ch] kr kg
  have k1: "column_known tr1 lib ''myratings''" "column_known tr1 lib ''my_genres''"
    by simp_all
  have r: "r"
    using cr create_known_column_succeeds [OF rep k1(1), of "''My Ratings''"]
    by (auto split: if_splits)
  have "column_known tr2 lib ''my_genres''"
    using cr k1(2)
      create_custom_column_known [of e tr1 lib "''myratings''" "''My Ratings''" r tr2 "''my_genres''"]
    by (auto split: if_splits)
  then have g: "g"
    using cg create_known_column_succeeds [OF rep, of tr2 "''my_genres''" "''My Genres''"]
    by (auto split: if_splits)
  from ch cr cg r g show ?thesis by (simp add: ensure_custom_columns_def)
qed

lemma already_exists_example: "str_contains (lower ''Column already exists'') ''already exists''"
  by code_simp

lemma env_unreadable_reports: "reports_existing_columns env_unreadable lib_fiction"
  by (simp add: reports_existing_columns_def env_unreadable_def already_exists_reported_def
      already_exists_example)

text \<open>
  Claim C8: a request to add a column that the tool answers with the diagnostic
  \<open>already exists\<close> counts as a success of \<open>create_custom_column\<close>, whatever the return
  code; and, with a tool that reports existing columns in this way, provisioning a
  library again after a provisioning that succeeded succeeds again.
\<close>

theorem ensure_custom_columns_idempotent:
  "(\<forall>rc out err. calibredb_add_custom_column e tr (path lib) column display = Completed rc out err
        \<and> str_contains (lower err) ''already exists''
      \<longrightarrow> fst (create_custom_column e tr lib column display) = True)
   \<and> (reports_existing_columns e lib \<and> ensure_custom_columns e tr lib = (True, tr1)
      \<longrightarrow> fst (ensure_custom_columns e tr1 lib) = True)"
proof (intro conjI allI impI)
  fix rc out err
  assume "calibredb_add_custom_column e tr (path lib) column display = Completed rc out err
        \<and> str_contains (lower err) ''already exists''"
  then show "fst (create_custom_column e tr lib column display) = True"
    by (simp add: create_custom_column_def)
next
  assume a: "reports_existing_columns e lib \<and> ensure_custom_columns e tr lib = (True, tr1)"
  with ensure_custom_columns_known [of e tr lib tr1]
  show "fst (ensure_custom_columns e tr1 lib) = True"
    by (simp add: ensure_known_columns_succeeds)
qed

theorem ensure_custom_columns_idempotent_witness:
  "reports_existing_columns env_unreadable lib_fiction
   \<and> ensure_custom_columns env_unreadable [] lib_fiction =
       (True, [ReadColumns ''/books/Fiction/metadata.db'' None,
               AddColumn ''/books/Fiction'' ''myratings'' ''My Ratings'' (Completed 0 [] []),
               AddColumn ''/books/Fiction'' ''my_genres'' ''My Genres'' (Completed 0 [] [])])
   \<and> fst (ensure_custom_columns env_unreadable
       [ReadColumns ''/books/Fiction/metadata.db'' None,
        AddColumn ''/books/Fiction'' ''myratings'' ''My Ratings'' (Completed 0 [] []),
        AddColumn ''/books/Fiction'' ''my_genres'' ''My Genres'' (Completed 0 [] [])]
       lib_fiction) = True"
proof -
  have first: "ensure_custom_columns env_unreadable [] lib_fiction =
       (True, [ReadColumns ''/books/Fiction/metadata.db'' None,
               AddColumn ''/books/Fiction'' ''myratings'' ''My Ratings'' (Completed 0 [] []),
               AddColumn ''/books/Fiction'' ''my_genres'' ''My Genres'' (Completed 0 [] [])])"
    by code_simp
  from ensure_custom_columns_idempotent [of env_unreadable "[]" lib_fiction _ _ _]
    env_unreadable_reports first
  show ?thesis by simp
qed

section \<open>Backups before changes\<close>

text \<open>
  A library whose probe, backup or provisioning fails is skipped: all its matches
  are counted as failed, no field has been set, and the loop goes on with the next
  library.
\<close>

lemma store_checks_write_no_field:
  assumes "test_calibredb_connection e tr lib = (c, tr1)"
    and "backup_library e tr1 lib = (b, tr2)"
    and "ensure_custom_columns e tr2 lib = (en, tr3)"
  shows "field_writes tr1 = field_writes tr \<and> field_writes tr2 = field_writes tr
     \<and> field_writes tr3 = field_writes tr"
  using assms
  by (auto simp: test_calibredb_connection_def backup_library_def ensure_custom_columns_def
      check_custom_columns_def create_custom_column_def field_writes_def Let_def
      split: if_splits prod.splits)

lemma failed_store_is_skipped:
  assumes "test_calibredb_connection e tr (library m0) = (c, tr1)"
    and "backup_library e tr1 (library m0) = (b, tr2)"
    and "ensure_custom_columns e tr2 (library m0) = (en, tr3)"
    and "\<not> (c \<and> b \<and> en)"
  shows "process_libraries e tr st ((n, m0 # ms) # rest) =
     process_libraries e (if \<not> c then tr1 else if \<not> b then tr2 else tr3)
       (st\<lparr> failed := failed st + length (m0 # ms) \<rparr>) rest"
  using assms by auto

text \<open>
  Every step of the bulk update keeps a trace safe, as long as the fields it sets
  belong to the library that was backed up.
\<close>

lemma backed_up_first_append:
  "backed_up_first libs backed (tr @ tr') =
     (backed_up_first libs backed tr
      \<and> backed_up_first libs (backed_after libs backed tr) tr')"
proof (induction tr arbitrary: backed)
  case Nil
  then show ?case by simp
next
  case (Cons ev tr)
  then show ?case by (cases ev) simp_all
qed

lemma backed_after_append:
  "backed_after libs backed (tr @ tr') = backed_after libs (backed_after libs backed tr) tr'"
proof (induction tr arbitrary: backed)
  case Nil
  then show ?case by simp
next
  case (Cons ev tr)
  then show ?case by (cases ev) simp_all
qed

lemma safe_snoc:
  "safe libs (tr @ [ev]) =
     (safe libs tr \<and>
      (case ev of
         AddColumn p l d r \<Rightarrow> covered libs tr p
       | SetMetadata p b f r \<Rightarrow> covered libs tr p
       | _ \<Rightarrow> True))"
  by (cases ev) (simp_all add: safe_def covered_def backed_up_first_append)

lemma covered_snoc:
  "covered libs (tr @ [ev]) p =
     (covered libs tr p \<or>
      (case ev of
         Backup n f ok \<Rightarrow> ok \<and> p \<in> path ` {l \<in> set libs. metadata_db_path l = f}
       | _ \<Rightarrow> False))"
  by (cases ev) (auto simp: covered_def backed_after_append)

lemma test_calibredb_connection_safe:
  "test_calibredb_connection e tr lib = (ok, tr1) \<Longrightarrow>
     (safe libs tr \<longrightarrow> safe libs tr1) \<and> (covered libs tr p \<longrightarrow> covered libs tr1 p)"
  by (auto simp: test_calibredb_connection_def Let_def safe_snoc covered_snoc)

lemma backup_library_safe:
  "backup_library e tr lib = (ok, tr1) \<Longrightarrow>
     (safe libs tr \<longrightarrow> safe libs tr1) \<and> (covered libs tr p \<longrightarrow> covered libs tr1 p)
     \<and> (ok \<and> lib \<in> set libs \<longrightarrow> covered libs tr1 (path lib))"
  by (auto simp: backup_library_def Let_def safe_snoc covered_snoc)

lemma check_custom_columns_safe:
  "check_custom_columns e tr lib = (cols, tr1) \<Longrightarrow>
     (safe libs tr \<longrightarrow> safe libs tr1) \<and> (covered libs tr p \<longrightarrow> covered libs tr1 p)"
  by (auto simp: check_custom_columns_def Let_def safe_snoc covered_snoc)

lemma create_custom_column_safe:
  "create_custom_column e tr lib c d = (ok, tr1) \<Longrightarrow>
     (safe libs tr \<and> covered libs tr (path lib) \<longrightarrow> safe libs tr1)
     \<and> (covered libs tr p \<longrightarrow> covered libs tr1 p)"
  by (auto simp: create_custom_column_def Let_def safe_snoc covered_snoc)

lemma ensure_custom_columns_safe:
  assumes "ensure_custom_columns e tr lib = (ok, tr')"
  shows "(safe libs tr \<and> covered libs tr (path lib) \<longrightarrow> safe libs tr')
     \<and> (covered libs tr p \<longrightarrow> covered libs tr' p)"
proof -
  obtain cols tr1 where ch: "check_custom_columns e tr lib = (cols, tr1)"
    by (cases "check_custom_columns e tr lib")
  obtain r tr2 where cr: "(if \<not> my_ratings cols
                 then create_custom_column e tr1 lib ''myratings'' ''My Ratings''
                 else (True, tr1)) = (r, tr2)"
    by (metis prod.exhaust)
  obtain g tr3 where cg: "(if \<not> my_genres cols
                      then create_custom_column e tr2 lib ''my_genres'' ''My Genres''
                      else (True, tr2)) = (g, tr3)"
    by (metis prod.exhaust)
  from assms ch cr cg have tr': "tr' = tr3" by (simp add: ensure_custom_columns_def)
  note a = check_custom_columns_safe [OF ch, of libs]
  have b: "(safe libs tr1 \<and> covered libs tr1 (path lib) \<longrightarrow> safe libs tr2)
     \<and> (covered libs tr1 q \<longrightarrow> covered libs tr2 q)" for q
    using cr create_custom_column_safe [of e tr1 lib "''myratings''" "''My Ratings''" r tr2 libs q]
    by (auto split: if_splits)
  have c: "(safe libs tr2 \<and> covered libs tr2 (path lib) \<longrightarrow> safe libs tr3)
     \<and> (covered libs tr2 q \<longrightarrow> covered libs tr3 q)" for q
    using cg create_custom_column_safe [of e tr2 lib "''my_genres''" "''My Genres''" g tr3 libs q]
    by (auto split: if_splits)
  from a [of p] a [of "path lib"] b [of p] b [of "path lib"] c [of p] c [of "path lib"]
  show ?thesis by (auto simp: tr')
qed

lemma update_custom_column_safe:
  "update_custom_column e tr lib b c vs = (ok, tr1) \<Longrightarrow>
     (safe libs tr \<and> covered libs tr (path lib) \<longrightarrow> safe libs tr1)
     \<and> (covered libs tr p \<longrightarrow> covered libs tr1 p)"
  by (auto simp: update_custom_column_def Let_def safe_snoc covered_snoc split: if_splits)

lemma update_book_metadata_safe:
  assumes "update_book_metadata e tr m = (ok, tr')"
  shows "(safe libs tr \<and> covered libs tr (path (library m)) \<longrightarrow> safe libs tr')
     \<and> (covered libs tr p \<longrightarrow> covered libs tr' p)"
proof -
  let ?rs = "get_rating_collections (collections (BookMatch.kobo_book m))"
  let ?gs = "get_genre_collections (collections (BookMatch.kobo_book m))"
  obtain r tr1 where ur: "(if ?rs \<noteq> []
               then update_custom_column e tr (library m) (calibre_book_id m)
                      ''myratings'' ?rs
               else (True, tr)) = (r, tr1)"
    by (metis prod.exhaust)
  obtain g tr2 where ug: "(if ?gs \<noteq> []
                       then update_custom_column e tr1 (library m) (calibre_book_id m)
                              ''my_genres'' ?gs
                       else (True, tr1)) = (g, tr2)"
    by (metis prod.exhaust)
  have a: "(safe libs tr \<and> covered libs tr (path (library m)) \<longrightarrow> safe libs tr1)
     \<and> (covered libs tr q \<longrightarrow> covered libs tr1 q)" for q
    using ur update_custom_column_safe [of e tr "library m" "calibre_book_id m" "''myratings''" ?rs r tr1 libs q]
    by (auto split: if_splits)
  have b: "(safe libs tr1 \<and> covered libs tr1 (path (library m)) \<longrightarrow> safe libs tr2)
     \<and> (covered libs tr1 q \<longrightarrow> covered libs tr2 q)" for q
    using ug update_custom_column_safe [of e tr1 "library m" "calibre_book_id m" "''my_genres''" ?gs g tr2 libs q]
    by (auto split: if_splits)
  from assms ur ug have "tr' = tr1 \<or> tr' = tr2"
    by (auto simp: update_book_metadata_def Let_def split: if_splits)
  with a [of p] a [of "path (library m)"] b [of p] b [of "path (library m)"]
  show ?thesis by auto
qed

lemma update_books_safe:
  "update_books e tr st ms = (st', tr') \<Longrightarrow>
   list_all (\<lambda>m. path (library m) = p) ms \<Longrightarrow> safe libs tr \<Longrightarrow> covered libs tr p \<Longrightarrow>
     safe libs tr' \<and> covered libs tr' p"
proof (induction ms arbitrary: tr st)
  case Nil
  then show ?case by simp
next
  case (Cons m ms)
  obtain ok tr1 where u: "update_book_metadata e tr m = (ok, tr1)"
    by (cases "update_book_metadata e tr m")
  from Cons.prems(2) have pm: "path (library m) = p" and rest: "list_all (\<lambda>m. path (library m) = p) ms"
    by simp_all
  from update_book_metadata_safe [OF u, of libs p] pm Cons.prems(3,4)
  have s1: "safe libs tr1" "covered libs tr1 p" by simp_all
  from Cons.prems(1) u Cons.IH [OF _ rest s1] show ?case by simp
qed

lemma process_libraries_safe:
  "uniform_groups libs groups \<Longrightarrow> safe libs tr \<Longrightarrow>
     safe libs (snd (process_libraries e tr st groups))"
proof (induction e tr st groups rule: process_libraries.induct)
  case (1 e tr st)
  then show ?case by simp
next
  case (2 e tr st library_name rest)
  then show ?case by simp
next
  case (3 e tr st library_name m0 ms rest)
  let ?lib = "library m0"
  from "3.prems"(1) have lib: "?lib \<in> set libs" and same: "list_all (\<lambda>m. library m = ?lib) ms"
    and rest: "uniform_groups libs rest"
    by (simp_all add: uniform_groups_def)
  obtain c tr1 where c: "test_calibredb_connection e tr ?lib = (c, tr1)"
    by (cases "test_calibredb_connection e tr ?lib")
  obtain b tr2 where b: "backup_library e tr1 ?lib = (b, tr2)"
    by (cases "backup_library e tr1 ?lib")
  obtain en tr3 where en: "ensure_custom_columns e tr2 ?lib = (en, tr3)"
    by (cases "ensure_custom_columns e tr2 ?lib")
  obtain st4 tr4 where u: "update_books e tr3 st (m0 # ms) = (st4, tr4)"
    by (cases "update_books e tr3 st (m0 # ms)")
  from test_calibredb_connection_safe [OF c, of libs] "3.prems"(2)
  have s1: "safe libs tr1" by simp
  from backup_library_safe [OF b, of libs] s1 lib
  have s2: "safe libs tr2" and c2: "b \<longrightarrow> covered libs tr2 (path ?lib)" by simp_all
  from ensure_custom_columns_safe [OF en, of libs "path ?lib"] s2 c2
  have s3: "b \<longrightarrow> safe libs tr3" and c3: "b \<longrightarrow> covered libs tr3 (path ?lib)" by simp_all
  have all: "list_all (\<lambda>m. path (library m) = path ?lib) (m0 # ms)"
    using same by (simp add: list_all_iff)
  have s4: "b \<longrightarrow> safe libs tr4"
    using update_books_safe [OF u all] s3 c3 by blast
  show ?case
  proof (cases c)
    case False
    with c "3.IH"(1) [OF refl refl c [symmetric] _ rest s1] show ?thesis by simp
  next
    case ct: True
    show ?thesis
    proof (cases b)
      case False
      with ct c b "3.IH"(2) [OF refl refl c [symmetric] _ b [symmetric] _ rest s2]
      show ?thesis by simp
    next
      case bt: True
      show ?thesis
      proof (cases en)
        case False
        with ct bt c b en s3
          "3.IH"(3) [OF refl refl c [symmetric] _ b [symmetric] _ en [symmetric] _ rest]
        show ?thesis by simp
      next
        case True
        with ct bt c b en u s4
          "3.IH"(4) [OF refl refl c [symmetric] _ b [symmetric] _ en [symmetric] _ u [symmetric] rest]
        show ?thesis by simp
      qed
    qed
  qed
qed

lemma add_to_library_keyed:
  assumes "keyed_groups S bl" and "m \<in> S"
  shows "keyed_groups S (add_to_library bl m)"
proof (cases "name (library m) \<in> set (map fst bl)")
  case False
  with assms show ?thesis by (simp add: add_to_library_def keyed_groups_def)
next
  case True
  let ?f = "\<lambda>(k, ms). if k = name (library m) then (k, ms @ [m]) else (k, ms)"
  have "keyed_groups S (map ?f bl)"
    using assms by (induction bl) (auto simp: keyed_groups_def split: if_splits)
  with True show ?thesis by (simp add: add_to_library_def)
qed

lemma group_by_library_keyed:
  "set xs \<subseteq> S \<Longrightarrow> keyed_groups S (group_by_library xs)"
proof (induction xs rule: rev_induct)
  case Nil
  then show ?case by (simp add: group_by_library_def keyed_groups_def)
next
  case (snoc m xs)
  have "group_by_library (xs @ [m]) = add_to_library (group_by_library xs) m"
    by (simp add: group_by_library_def)
  with snoc add_to_library_keyed [of S "group_by_library xs" m] show ?case by simp
qed

lemma keyed_groups_uniform:
  assumes names: "\<forall>m1 \<in> set ms. \<forall>m2 \<in> set ms.
      name (library m1) = name (library m2) \<longrightarrow> library m1 = library m2"
    and keyed: "keyed_groups (set ms) groups"
  shows "uniform_groups (map library ms) groups"
  unfolding uniform_groups_def list_all_iff
proof
  fix g assume g: "g \<in> set groups"
  show "case snd g of [] \<Rightarrow> True
        | m0 # rest \<Rightarrow> library m0 \<in> set (map library ms)
            \<and> (\<forall>m \<in> set rest. library m = library m0)"
  proof (cases "snd g")
    case Nil
    then show ?thesis by simp
  next
    case (Cons m0 rest)
    from keyed g Cons have k: "\<forall>m \<in> set (m0 # rest). m \<in> set ms \<and> name (library m) = fst g"
      by (auto simp: keyed_groups_def list_all_iff)
    then have "m0 \<in> set ms" by simp
    moreover have "library m = library m0" if "m \<in> set rest" for m
      using names k that by (metis list.set_intros(1,2))
    ultimately show ?thesis using Cons by simp
  qed
qed

text \<open>
  When libraries of the same name are the same library, the bulk update changes no
  store before a successful backup of its file.
\<close>

lemma bulk_update_backs_up_first:
  assumes "\<forall>m1 \<in> set ms. \<forall>m2 \<in> set ms.
      name (library m1) = name (library m2) \<longrightarrow> library m1 = library m2"
    and "backed_up_first (map library ms) [] tr"
  shows "backed_up_first (map library ms) [] (snd (bulk_update e tr ms))"
proof -
  have "keyed_groups (set ms) (group_by_library ms)"
    by (rule group_by_library_keyed) simp
  with assms(1) have "uniform_groups (map library ms) (group_by_library ms)"
    by (rule keyed_groups_uniform)
  with assms(2) show ?thesis
    using process_libraries_safe [of "map library ms" "group_by_library ms" tr e]
    by (simp add: bulk_update_def safe_def)
qed

text \<open>
  Claim C7: no store is changed without a successful backup of its file before. The
  bulk update groups the matches by the name of their library and probes, backs up
  and provisions the library of the first match of a group only, while every field
  is written to the library of its own match. With two libraries of the same name,
  the second one is written to and was never backed up.
\<close>

theorem bulk_update_writes_without_backup:
  "bulk_update env_ok [] [exact_match kb_unison lib_docs row_unison,
                           exact_match kb_tagged lib_dl row_dune]
     = (Inr \<lparr> total_stat = 2, successful = 2, failed = 0, libraries_updated = {''Books''},
              dry_run = None \<rparr>,
        [Probe ''/docs/Books'' (Completed 0 [] []),
         Backup ''Books'' ''/docs/Books/metadata.db'' True,
         ReadColumns ''/docs/Books/metadata.db''
           (Some [(''myratings'', ''My Ratings''), (''my_genres'', ''My Genres'')]),
         SetMetadata ''/docs/Books'' 7 ''#myratings:Evergreen'' (Completed 0 [] []),
         SetMetadata ''/docs/Books'' 7 ''#my_genres:sweet fluff,killjoys'' (Completed 0 [] []),
         SetMetadata ''/dl/Books'' 3 ''#myratings:Great'' (Completed 0 [] [])])
   \<and> \<not> backed_up_first [lib_docs, lib_dl] []
         (snd (bulk_update env_ok [] [exact_match kb_unison lib_docs row_unison,
                                       exact_match kb_tagged lib_dl row_dune]))"
  by code_simp

end
